theory Spec2Isabelle
  imports Main
begin

section \<open>Values of the store file\<close>

text \<open>
  The server reads its events with \<^verbatim>\<open>JSON.parse\<close>, so an event is whatever JSON value
  the store file holds. JavaScript's \<^verbatim>\<open>null\<close> is \<open>JNull\<close>; \<^verbatim>\<open>undefined\<close>, which
  no JSON text denotes, is the \<open>None\<close> of a property read. Numbers are kept to the
  integers: the handler only tests a number for being zero and hands it to \<^verbatim>\<open>Date\<close>.
  An object is the list of its own properties, the first entry for a key being the
  property's value.
\<close>

datatype json =
    JNull
  | JBool bool
  | JNum int
  | JStr string
  | JArr "json list"
  | JObj "(string \<times> json) list"

datatype error = TypeError | SyntaxError | RangeError

text \<open>
  \<^verbatim>\<open>v.k\<close> for a value \<open>v\<close> that is neither \<^verbatim>\<open>null\<close> nor \<^verbatim>\<open>undefined\<close>, and a key
  \<open>k\<close> among \<^verbatim>\<open>startTime\<close>, \<^verbatim>\<open>endTime\<close>, \<^verbatim>\<open>location\<close>, \<^verbatim>\<open>title\<close>, \<^verbatim>\<open>summary\<close>:
  strings, numbers, booleans and arrays have no such property.
\<close>

fun get :: "json \<Rightarrow> string \<Rightarrow> json option" where
  "get (JObj kvs) k = map_of kvs k"
| "get _ k = None"

text \<open>JavaScript truthiness, as \<^verbatim>\<open>!x\<close> and \<^verbatim>\<open>||\<close> test it.\<close>

fun truthy :: "json \<Rightarrow> bool" where
  "truthy JNull = False"
| "truthy (JBool b) = b"
| "truthy (JNum n) = (n \<noteq> 0)"
| "truthy (JStr s) = (s \<noteq> [])"
| "truthy (JArr xs) = True"
| "truthy (JObj kvs) = True"

definition truthy_opt :: "json option \<Rightarrow> bool" where
  "truthy_opt v = (case v of None \<Rightarrow> False | Some x \<Rightarrow> truthy x)"

text \<open>
  \<^verbatim>\<open>new Date(v)\<close> and a template literal first convert \<open>v\<close> to a primitive. On a
  value read from JSON the conversion throws a TypeError exactly when it meets an
  object with a property \<^verbatim>\<open>toString\<close> of its own, which is never callable: in \<open>v\<close>
  itself or, since an array is joined from its elements, in an element of \<open>v\<close>.
\<close>

fun conversion_throws :: "json \<Rightarrow> bool" where
  "conversion_throws (JObj kvs) = (map_of kvs ''toString'' \<noteq> None)"
| "conversion_throws (JArr xs) = (\<exists>x\<in>set xs. conversion_throws x)"
| "conversion_throws _ = False"

definition throws_opt :: "json option \<Rightarrow> bool" where
  "throws_opt v = (case v of None \<Rightarrow> False | Some x \<Rightarrow> conversion_throws x)"

text \<open>\<^verbatim>\<open>String.prototype.includes\<close>: the room occurs as a substring.\<close>

fun starts_with :: "string \<Rightarrow> string \<Rightarrow> bool" where
  "starts_with s [] = True"
| "starts_with [] (c # r) = False"
| "starts_with (d # s) (c # r) = (d = c \<and> starts_with s r)"

fun str_includes :: "string \<Rightarrow> string \<Rightarrow> bool" where
  "str_includes [] r = (r = [])"
| "str_includes (c # s) r = (starts_with (c # s) r \<or> str_includes s r)"

text \<open>
  \<^verbatim>\<open>event.location.includes(room)\<close> for a truthy location and a room that is a string:
  an array is searched for an element equal to the room, a string for the room as a
  substring, and any other truthy value has no callable \<^verbatim>\<open>includes\<close>.
\<close>

fun js_includes :: "json \<Rightarrow> string \<Rightarrow> error + bool" where
  "js_includes (JArr xs) room = Inr (JStr room \<in> set xs)"
| "js_includes (JStr s) room = Inr (str_includes s room)"
| "js_includes _ room = Inl TypeError"

section \<open>The JavaScript runtime and the renderer\<close>

text \<open>
  What the handler takes from outside the repository is a parameter of the model:
  \<^item> \<open>JSON_parse\<close>: \<^verbatim>\<open>JSON.parse\<close>, \<open>None\<close> when it throws;
  \<^item> \<open>new_Date\<close>: the time value in milliseconds of \<^verbatim>\<open>new Date(v)\<close> for a \<open>v\<close> whose
    conversion does not throw, \<open>None\<close> for an invalid date, whose \<^verbatim>\<open>getTime()\<close> is
    NaN;
  \<^item> \<open>getFullYear\<close>, \<open>getMonth\<close>, \<open>getDate\<close>: the calendar fields of a valid date in the
    server's time zone;
  \<^item> \<open>toISOString\<close> of a valid date, and \<open>toString\<close>, the text a template literal
    makes of a value whose conversion does not throw;
  \<^item> \<open>generateEventImage\<close>: the result of lines 55 to 175, which build a page and have
    the headless browser render it, \<open>None\<close> when that throws;
  \<^item> \<open>writeFileSync\<close>: whether the test image can be written.
\<close>

record runtime =
  JSON_parse :: "string \<Rightarrow> json option"
  new_Date :: "json \<Rightarrow> int option"
  getFullYear :: "int \<Rightarrow> int"
  getMonth :: "int \<Rightarrow> int"
  getDate :: "int \<Rightarrow> int"
  toISOString :: "int \<Rightarrow> string"
  toString :: "json \<Rightarrow> string"
  generateEventImage :: "json option \<Rightarrow> string \<Rightarrow> json option \<Rightarrow> string option"
  writeFileSync :: "string \<Rightarrow> bool"

section \<open>The selection loop of POST /data\<close>

text \<open>
  \<open>sameDate\<close> is the test of lines 266 to 268 negated: a date that is invalid has NaN
  for each field and is on no day.
\<close>

definition sameDate :: "runtime \<Rightarrow> int \<Rightarrow> int option \<Rightarrow> bool" where
  "sameDate rt timeNow eventStart =
     (case eventStart of
        None \<Rightarrow> False
      | Some t \<Rightarrow> \<not> (getFullYear rt t \<noteq> getFullYear rt timeNow \<or>
                     getMonth rt t \<noteq> getMonth rt timeNow \<or>
                     getDate rt t \<noteq> getDate rt timeNow))"

text \<open>Comparisons of time values; one with NaN on either side is false.\<close>

definition ms_le :: "int option \<Rightarrow> int option \<Rightarrow> bool" where
  "ms_le a b = (case (a, b) of (Some x, Some y) \<Rightarrow> x \<le> y | _ \<Rightarrow> False)"

definition ms_lt :: "int option \<Rightarrow> int option \<Rightarrow> bool" where
  "ms_lt a b = (case (a, b) of (Some x, Some y) \<Rightarrow> x < y | _ \<Rightarrow> False)"

definition date_of :: "runtime \<Rightarrow> json option \<Rightarrow> int option" where
  "date_of rt v = (case v of None \<Rightarrow> None | Some x \<Rightarrow> new_Date rt x)"

text \<open>
  The loop of lines 259 to 287 over the events still to visit. \<open>currentEvent\<close> is
  \<^verbatim>\<open>null\<close> until the \<^verbatim>\<open>break\<close>, so the state carried along is \<open>nextEvent\<close>; the
  result is the pair \<open>(currentEvent, nextEvent)\<close> after the loop, or the exception
  that left it: reading a property of \<^verbatim>\<open>null\<close> on line 260, calling an \<^verbatim>\<open>includes\<close>
  that is no function on line 261, converting a time on lines 263 and 273. The start of
  \<open>nextEvent\<close> on line 283 was converted before, when the event was kept.
\<close>

fun select_loop ::
  "runtime \<Rightarrow> string \<Rightarrow> int \<Rightarrow> json list \<Rightarrow> json option \<Rightarrow> error + (json option \<times> json option)"
where
  "select_loop rt room timeNow [] nextEvent = Inr (None, nextEvent)"
| "select_loop rt room timeNow (event # rest) nextEvent =
     (if event = JNull then Inl TypeError
      else if \<not> truthy_opt (get event ''startTime'') \<or> \<not> truthy_opt (get event ''endTime'')
              \<or> \<not> truthy_opt (get event ''location'')
        then select_loop rt room timeNow rest nextEvent
      else
        (case js_includes (the (get event ''location'')) room of
           Inl err \<Rightarrow> Inl err
         | Inr False \<Rightarrow> select_loop rt room timeNow rest nextEvent
         | Inr True \<Rightarrow>
             (if throws_opt (get event ''startTime'') then Inl TypeError
              else
                (let eventStart = date_of rt (get event ''startTime'') in
                 if \<not> sameDate rt timeNow eventStart
                   then select_loop rt room timeNow rest nextEvent
                 else if throws_opt (get event ''endTime'') then Inl TypeError
                 else
                   (let eventStartMs = eventStart;
                        eventEndMs = date_of rt (get event ''endTime'')
                    in if ms_le eventStartMs (Some timeNow) \<and> ms_le (Some timeNow) eventEndMs
                         then Inr (Some event, nextEvent)
                       else if ms_lt (Some timeNow) eventStartMs
                         then (if nextEvent = None \<or>
                                  ms_lt eventStartMs
                                    (date_of rt (get (the nextEvent) ''startTime''))
                               then select_loop rt room timeNow rest (Some event)
                               else select_loop rt room timeNow rest nextEvent)
                       else select_loop rt room timeNow rest nextEvent)))))"

section \<open>The events cache\<close>

text \<open>
  The two variables of lines 20 and 21, both \<^verbatim>\<open>null\<close> when the server starts, and the
  store file as one request sees it: absent, or its modification time in milliseconds
  and its text.
\<close>

record cache =
  eventsCache :: json
  cacheTimestamp :: "int option"

record store_file =
  mtime :: int
  rawData :: string

definition initial_cache :: cache where
  "initial_cache = \<lparr>eventsCache = JNull, cacheTimestamp = None\<rparr>"

text \<open>\<^verbatim>\<open>!cacheTimestamp\<close>: the timestamp is \<^verbatim>\<open>null\<close> or the number 0.\<close>

definition no_timestamp :: "int option \<Rightarrow> bool" where
  "no_timestamp t = (t = None \<or> t = Some 0)"

text \<open>
  \<open>stale\<close> is the condition of line 44, under which the file is read and parsed.
  \<open>loadEventsCache\<close> returns what the function returns, or the exception it throws,
  and the cache it leaves. The log line of line 48 puts \<^verbatim>\<open>eventsCache.length\<close> into a
  template literal, after both variables are assigned: that throws when the file's
  text denotes \<^verbatim>\<open>null\<close>, or an object whose \<^verbatim>\<open>length\<close> cannot be converted.
\<close>

definition log_line_throws :: "json \<Rightarrow> bool" where
  "log_line_throws v =
     (case v of
        JNull \<Rightarrow> True
      | JObj kvs \<Rightarrow> throws_opt (map_of kvs ''length'')
      | _ \<Rightarrow> False)"

definition stale :: "cache \<Rightarrow> int \<Rightarrow> bool" where
  "stale st fileModTime =
     (\<not> truthy (eventsCache st) \<or> no_timestamp (cacheTimestamp st)
      \<or> ms_lt (cacheTimestamp st) (Some fileModTime))"

definition loadEventsCache :: "runtime \<Rightarrow> store_file option \<Rightarrow> cache \<Rightarrow> (error + json) \<times> cache" where
  "loadEventsCache rt disk st =
     (case disk of
        None \<Rightarrow> (Inr JNull, \<lparr>eventsCache = JNull, cacheTimestamp = None\<rparr>)
      | Some f \<Rightarrow>
          (let fileModTime = mtime f in
           if stale st fileModTime
           then
             (case JSON_parse rt (rawData f) of
                None \<Rightarrow> (Inl SyntaxError, st)
              | Some v \<Rightarrow>
                  (if log_line_throws v then Inl TypeError else Inr v,
                   \<lparr>eventsCache = v, cacheTimestamp = Some fileModTime\<rparr>))
           else (Inr (eventsCache st), st)))"

text \<open>Line 226 of \<^verbatim>\<open>parseICal\<close>, after the store file is written.\<close>

definition invalidate :: "cache \<Rightarrow> cache" where
  "invalidate st = st\<lparr>cacheTimestamp := None\<rparr>"

section \<open>The handler of POST /data\<close>

record reply =
  reply_room :: string
  reply_currentTime :: string
  reply_event :: "json option"
  reply_nextEvent :: "json option"
  reply_nextEventMessage :: "string option"
  reply_imageBase64 :: string

datatype response = Ok200 reply | Error500 string

text \<open>
  \<^verbatim>\<open>for (const event of allEvents)\<close> for a truthy value: an array gives its elements, a
  string its characters, and nothing else is iterable.
\<close>

fun iterate :: "json \<Rightarrow> error + json list" where
  "iterate (JArr xs) = Inr xs"
| "iterate (JStr s) = Inr (map (\<lambda>c. JStr [c]) s)"
| "iterate _ = Inl TypeError"

text \<open>
  \<^verbatim>\<open>nextEvent.title || nextEvent.summary || 'No Title'\<close> inside the template literal:
  the value, and its text.
\<close>

definition title_value :: "json \<Rightarrow> json" where
  "title_value e =
     (if truthy_opt (get e ''title'') then the (get e ''title'')
      else if truthy_opt (get e ''summary'') then the (get e ''summary'')
      else JStr ''No Title'')"

text \<open>
  Lines 299 to 307. \<^verbatim>\<open>toISOString\<close> throws a RangeError on an invalid date.
\<close>

definition nextEventMessage :: "runtime \<Rightarrow> json option \<Rightarrow> json option \<Rightarrow> error + string option" where
  "nextEventMessage rt currentEvent nextEvent =
     (if currentEvent = None then
        (case nextEvent of
           Some n \<Rightarrow>
             (if throws_opt (get n ''startTime'') then Inl TypeError
              else
                (case date_of rt (get n ''startTime'') of
                   None \<Rightarrow> Inl RangeError
                 | Some t \<Rightarrow>
                     (if conversion_throws (title_value n) then Inl TypeError
                      else
                        Inr (Some (''Next event '' @ [CHR 0x22] @ toString rt (title_value n)
                                   @ [CHR 0x22] @ '' starts at '' @ toISOString rt t)))))
         | None \<Rightarrow> Inr (Some ''No upcoming events for this room''))
      else Inr None)"

text \<open>
  The handler from line 245 on, given the value \<open>loadEventsCache\<close> returned: every
  exception ends in the \<^verbatim>\<open>catch\<close> of line 318.
\<close>

definition respond :: "runtime \<Rightarrow> bool \<Rightarrow> string \<Rightarrow> int \<Rightarrow> json \<Rightarrow> response" where
  "respond rt skipParse room timeNow allEvents =
     (if \<not> truthy allEvents then Error500 ''Structured events data not found''
      else
        (case iterate allEvents of
           Inl err \<Rightarrow> Error500 ''Internal server error''
         | Inr events \<Rightarrow>
             (case select_loop rt room timeNow events None of
                Inl err \<Rightarrow> Error500 ''Internal server error''
              | Inr (currentEvent, nextEvent) \<Rightarrow>
                  (case generateEventImage rt currentEvent room nextEvent of
                     None \<Rightarrow> Error500 ''Internal server error''
                   | Some imageB64 \<Rightarrow>
                       (if skipParse \<and> \<not> writeFileSync rt imageB64
                          then Error500 ''Internal server error''
                        else
                          (case nextEventMessage rt currentEvent nextEvent of
                             Inl err \<Rightarrow> Error500 ''Internal server error''
                           | Inr message \<Rightarrow>
                               Ok200 \<lparr>reply_room = room,
                                      reply_currentTime = toISOString rt timeNow,
                                      reply_event = currentEvent,
                                      reply_nextEvent = nextEvent,
                                      reply_nextEventMessage = message,
                                      reply_imageBase64 = imageB64\<rparr>))))))"

text \<open>
  One request whose body is an object with a string \<open>room\<close>: the reference instant is
  pinned to 2025-11-07T09:00:00Z when \<^verbatim>\<open>SKIP_PARSE\<close> is set and is the clock otherwise.
  The result is the response and the cache the request leaves behind.
\<close>

definition post_data ::
  "runtime \<Rightarrow> bool \<Rightarrow> int \<Rightarrow> store_file option \<Rightarrow> cache \<Rightarrow> string \<Rightarrow> response \<times> cache"
where
  "post_data rt skipParse clock disk st room =
     (let timeNow = (if skipParse then 1762506000000 else clock) in
      case loadEventsCache rt disk st of
        (Inl err, st') \<Rightarrow> (Error500 ''Internal server error'', st')
      | (Inr allEvents, st') \<Rightarrow> (respond rt skipParse room timeNow allEvents, st'))"

section \<open>A runtime to evaluate the handler on\<close>

text \<open>
  The theorems below hold for every runtime. To run the handler on concrete stores,
  \<open>utc_runtime\<close> is a server whose time zone is UTC, with \<^verbatim>\<open>Date\<close> restricted to the
  inputs it is exact on here: a number is its own time value, and a string is read
  only in the form \<^verbatim>\<open>YYYY-MM-DDTHH:MM:SSZ\<close>; anything else counts as an invalid date.
  Days are counted from 1970-01-01 in the proleptic Gregorian calendar.
\<close>

definition days_from_civil :: "int \<Rightarrow> int \<Rightarrow> int \<Rightarrow> int" where
  "days_from_civil y m d =
     (let y' = (if m \<le> 2 then y - 1 else y);
          era = y' div 400;
          yoe = y' - era * 400;
          doy = (153 * (if m > 2 then m - 3 else m + 9) + 2) div 5 + d - 1;
          doe = yoe * 365 + yoe div 4 - yoe div 100 + doy
      in era * 146097 + doe - 719468)"

definition civil_from_days :: "int \<Rightarrow> int \<times> int \<times> int" where
  "civil_from_days z0 =
     (let z = z0 + 719468;
          era = z div 146097;
          doe = z - era * 146097;
          yoe = (doe - doe div 1460 + doe div 36524 - doe div 146096) div 365;
          doy = doe - (365 * yoe + yoe div 4 - yoe div 100);
          mp = (5 * doy + 2) div 153;
          d = doy - (153 * mp + 2) div 5 + 1;
          m = (if mp < 10 then mp + 3 else mp - 9)
      in (yoe + era * 400 + (if m \<le> 2 then 1 else 0), m, d))"

definition ms_per_day :: int where
  "ms_per_day = 86400000"

definition utc_year :: "int \<Rightarrow> int" where
  "utc_year t = fst (civil_from_days (t div ms_per_day))"

definition utc_month :: "int \<Rightarrow> int" where
  "utc_month t = fst (snd (civil_from_days (t div ms_per_day))) - 1"

definition utc_day :: "int \<Rightarrow> int" where
  "utc_day t = snd (snd (civil_from_days (t div ms_per_day)))"

definition digit_of :: "char \<Rightarrow> int option" where
  "digit_of c = (let n = (of_char c :: nat) in if 48 \<le> n \<and> n \<le> 57 then Some (int n - 48) else None)"

fun number_from :: "int \<Rightarrow> string \<Rightarrow> int option" where
  "number_from acc [] = Some acc"
| "number_from acc (c # cs) =
     (case digit_of c of None \<Rightarrow> None | Some d \<Rightarrow> number_from (10 * acc + d) cs)"

definition parse_utc :: "string \<Rightarrow> int option" where
  "parse_utc s =
     (if length s = 20 \<and> s ! 4 = CHR ''-'' \<and> s ! 7 = CHR ''-'' \<and> s ! 10 = CHR ''T''
         \<and> s ! 13 = CHR '':'' \<and> s ! 16 = CHR '':'' \<and> s ! 19 = CHR ''Z''
      then
        (case (number_from 0 (take 4 s), number_from 0 (take 2 (drop 5 s)),
               number_from 0 (take 2 (drop 8 s)), number_from 0 (take 2 (drop 11 s)),
               number_from 0 (take 2 (drop 14 s)), number_from 0 (take 2 (drop 17 s))) of
           (Some y, Some mo, Some d, Some h, Some mi, Some sec) \<Rightarrow>
             (if 1 \<le> mo \<and> mo \<le> 12 \<and> 1 \<le> d
                 \<and> civil_from_days (days_from_civil y mo d) = (y, mo, d)
                 \<and> h \<le> 23 \<and> mi \<le> 59 \<and> sec \<le> 59
              then Some (days_from_civil y mo d * ms_per_day
                         + ((h * 60 + mi) * 60 + sec) * 1000)
              else None)
         | _ \<Rightarrow> None)
      else None)"

fun utc_Date :: "json \<Rightarrow> int option" where
  "utc_Date (JNum n) = (if \<bar>n\<bar> \<le> 8640000000000000 then Some n else None)"
| "utc_Date (JStr s) = parse_utc s"
| "utc_Date _ = None"

fun pad :: "nat \<Rightarrow> int \<Rightarrow> string" where
  "pad 0 n = []"
| "pad (Suc k) n = pad k (n div 10) @ [char_of (48 + n mod 10)]"

definition utc_ISOString :: "int \<Rightarrow> string" where
  "utc_ISOString t =
     (let y = utc_year t; r = t mod ms_per_day
      in (if 0 \<le> y \<and> y \<le> 9999 then pad 4 y
          else (if y < 0 then ''-'' else ''+'') @ pad 6 \<bar>y\<bar>)
         @ ''-'' @ pad 2 (utc_month t + 1) @ ''-'' @ pad 2 (utc_day t)
         @ ''T'' @ pad 2 (r div 3600000) @ '':'' @ pad 2 (r div 60000 mod 60)
         @ '':'' @ pad 2 (r div 1000 mod 60) @ ''.'' @ pad 3 (r mod 1000) @ ''Z'')"

fun decimal :: "nat \<Rightarrow> string" where
  "decimal n = (if n < 10 then [char_of (48 + n)] else decimal (n div 10) @ [char_of (48 + n mod 10)])"

fun join_with :: "string \<Rightarrow> string list \<Rightarrow> string" where
  "join_with sep [] = []"
| "join_with sep [x] = x"
| "join_with sep (x # y # ys) = x @ sep @ join_with sep (y # ys)"

fun js_String :: "json \<Rightarrow> string" where
  "js_String JNull = ''null''"
| "js_String (JBool b) = (if b then ''true'' else ''false'')"
| "js_String (JNum n) = (if n < 0 then ''-'' @ decimal (nat (- n)) else decimal (nat n))"
| "js_String (JStr s) = s"
| "js_String (JArr xs) = join_with '','' (map (\<lambda>x. if x = JNull then [] else js_String x) xs)"
| "js_String (JObj kvs) = ''[object Object]''"

text \<open>
  \<open>json_text\<close> writes a value as JSON text, as \<^verbatim>\<open>JSON.stringify\<close> does without
  indentation for strings that need no escape. The example runtime parses exactly the
  texts of the example stores; a text cut off in the middle is not among them.
\<close>

definition quoted :: "string \<Rightarrow> string" where
  "quoted s = [CHR 0x22] @ s @ [CHR 0x22]"

fun json_text :: "json \<Rightarrow> string" where
  "json_text JNull = ''null''"
| "json_text (JBool b) = (if b then ''true'' else ''false'')"
| "json_text (JNum n) = (if n < 0 then ''-'' @ decimal (nat (- n)) else decimal (nat n))"
| "json_text (JStr s) = quoted s"
| "json_text (JArr xs) = ''['' @ join_with '','' (map json_text xs) @ '']''"
| "json_text (JObj kvs) =
     ''{'' @ join_with '','' (map (\<lambda>(k, v). quoted k @ '':'' @ json_text v) kvs) @ ''}''"

definition event_0900 :: json where
  "event_0900 = JObj [(''title'', JStr ''Anatomia''),
                      (''startTime'', JStr ''2025-11-07T09:00:00Z''),
                      (''endTime'', JStr ''2025-11-07T10:00:00Z''),
                      (''location'', JArr [JStr ''2.05''])]"

definition event_1100 :: json where
  "event_1100 = JObj [(''title'', JStr ''Fisiologia''),
                      (''startTime'', JStr ''2025-11-07T11:00:00Z''),
                      (''endTime'', JStr ''2025-11-07T12:00:00Z''),
                      (''location'', JArr [JStr ''2.05'', JStr ''Aula Magna''])]"

definition event_1100_bis :: json where
  "event_1100_bis = JObj [(''title'', JStr ''Bioquimica''),
                          (''startTime'', JStr ''2025-11-07T11:00:00Z''),
                          (''endTime'', JStr ''2025-11-07T13:00:00Z''),
                          (''location'', JArr [JStr ''2.05''])]"

definition event_tomorrow :: json where
  "event_tomorrow = JObj [(''title'', JStr ''Histologia''),
                          (''startTime'', JStr ''2025-11-08T09:00:00Z''),
                          (''endTime'', JStr ''2025-11-08T10:00:00Z''),
                          (''location'', JArr [JStr ''2.05''])]"

definition event_untimed :: json where
  "event_untimed = JObj [(''title'', JStr ''Seminari''), (''location'', JArr [JStr ''2.05''])]"

definition sample_stores :: "json list" where
  "sample_stores =
     [JArr [], JNull, JArr [event_0900], JArr [event_0900, event_1100],
      JArr [event_1100, event_0900]]"

definition truncated_text :: string where
  "truncated_text = take 40 (json_text (JArr [event_0900]))"

text \<open>The instants 09:30 and 10:30 of 2025-11-07, UTC, in milliseconds.\<close>

definition at_0930 :: int where
  "at_0930 = 1762507800000"

definition at_1030 :: int where
  "at_1030 = 1762511400000"

definition utc_runtime :: runtime where
  "utc_runtime =
     \<lparr>JSON_parse = map_of (map (\<lambda>v. (json_text v, v)) sample_stores),
      new_Date = utc_Date,
      getFullYear = utc_year,
      getMonth = utc_month,
      getDate = utc_day,
      toISOString = utc_ISOString,
      toString = js_String,
      generateEventImage = (\<lambda>event roomCode nextEvent. Some ''iVBORw0KGgo=''),
      writeFileSync = (\<lambda>data. True)\<rparr>"

section \<open>The Event of the data model and the selection properties\<close>

text \<open>
  The data model's Event is a record whose title is a string, whose times are
  timestamps and whose \<open>location\<close> is a sequence, each of them possibly absent: here an
  object whose \<open>title\<close>, \<open>summary\<close>, \<open>startTime\<close> and \<open>endTime\<close> are absent or
  a string, a number, a boolean or \<^verbatim>\<open>null\<close>, and whose \<open>location\<close> is absent, \<^verbatim>\<open>null\<close>
  or an array. A store element that is \<^verbatim>\<open>null\<close>, or whose truthy \<open>location\<close> is
  neither an array nor a string, is not an Event; the loop throws on it.
\<close>

definition scalar_field :: "json option \<Rightarrow> bool" where
  "scalar_field v = (case v of Some (JArr xs) \<Rightarrow> False | Some (JObj kvs) \<Rightarrow> False | _ \<Rightarrow> True)"

fun is_Event :: "json \<Rightarrow> bool" where
  "is_Event (JObj kvs) =
     (scalar_field (map_of kvs ''title'') \<and> scalar_field (map_of kvs ''summary'')
      \<and> scalar_field (map_of kvs ''startTime'') \<and> scalar_field (map_of kvs ''endTime'')
      \<and> (case map_of kvs ''location'' of
            None \<Rightarrow> True
          | Some JNull \<Rightarrow> True
          | Some (JArr ls) \<Rightarrow> True
          | Some _ \<Rightarrow> False))"
| "is_Event _ = False"

text \<open>A field is present: it is there and is not \<^verbatim>\<open>null\<close>, \<^verbatim>\<open>false\<close>, 0 or the empty string.\<close>

definition present :: "string \<Rightarrow> json \<Rightarrow> bool" where
  "present k e = truthy_opt (get e k)"

definition startMs :: "runtime \<Rightarrow> json \<Rightarrow> int option" where
  "startMs rt e = date_of rt (get e ''startTime'')"

definition endMs :: "runtime \<Rightarrow> json \<Rightarrow> int option" where
  "endMs rt e = date_of rt (get e ''endTime'')"

definition room_in_location :: "string \<Rightarrow> json \<Rightarrow> bool" where
  "room_in_location room e =
     (case get e ''location'' of Some (JArr ls) \<Rightarrow> JStr room \<in> set ls | _ \<Rightarrow> False)"

text \<open>
  An event is eligible for a room at an instant when it has both times, its location
  list contains the room and it starts on the instant's calendar date. It is current
  when the instant lies between its start and its end, bounds included, and upcoming
  when it starts after the instant.
\<close>

definition eligible :: "runtime \<Rightarrow> string \<Rightarrow> int \<Rightarrow> json \<Rightarrow> bool" where
  "eligible rt room timeNow e =
     (present ''startTime'' e \<and> present ''endTime'' e \<and> room_in_location room e
      \<and> sameDate rt timeNow (startMs rt e))"

definition is_current :: "runtime \<Rightarrow> string \<Rightarrow> int \<Rightarrow> json \<Rightarrow> bool" where
  "is_current rt room timeNow e =
     (eligible rt room timeNow e \<and> ms_le (startMs rt e) (Some timeNow)
      \<and> ms_le (Some timeNow) (endMs rt e))"

definition is_upcoming :: "runtime \<Rightarrow> string \<Rightarrow> int \<Rightarrow> json \<Rightarrow> bool" where
  "is_upcoming rt room timeNow e =
     (eligible rt room timeNow e \<and> ms_lt (Some timeNow) (startMs rt e))"

definition matches_today :: "runtime \<Rightarrow> string \<Rightarrow> int \<Rightarrow> json \<Rightarrow> bool" where
  "matches_today rt room timeNow e =
     (room_in_location room e \<and> sameDate rt timeNow (startMs rt e))"

text \<open>An Event that lacks a start, an end or a non-empty location list.\<close>

definition lacks_required :: "json \<Rightarrow> bool" where
  "lacks_required e =
     (\<not> present ''startTime'' e \<or> \<not> present ''endTime'' e
      \<or> \<not> (case get e ''location'' of Some (JArr (x # xs)) \<Rightarrow> True | _ \<Rightarrow> False))"

text \<open>What one round of the loop does to \<open>nextEvent\<close> when the event is not current.\<close>

definition keep_earliest :: "runtime \<Rightarrow> string \<Rightarrow> int \<Rightarrow> json option \<Rightarrow> json \<Rightarrow> json option" where
  "keep_earliest rt room timeNow nextEvent e =
     (if is_upcoming rt room timeNow e
         \<and> (nextEvent = None \<or> ms_lt (startMs rt e) (startMs rt (the nextEvent)))
      then Some e else nextEvent)"

section \<open>One round of the loop on an Event\<close>

lemma not_eligible_step:
  "\<not> eligible rt room now e \<Longrightarrow> \<not> is_current rt room now e \<and> keep_earliest rt room now nxt e = nxt"
  by (simp add: is_current_def is_upcoming_def keep_earliest_def)

lemma is_Event_location:
  assumes "is_Event e" and "truthy_opt (get e ''location'')"
  shows "\<exists>ls. get e ''location'' = Some (JArr ls)"
proof -
  from assms(1) obtain kvs where e: "e = JObj kvs" by (cases e) auto
  show ?thesis
    using assms unfolding e
    by (auto simp: truthy_opt_def split: option.splits json.splits)
qed

lemma scalar_no_throw: "scalar_field v \<Longrightarrow> \<not> throws_opt v"
  by (auto simp: scalar_field_def throws_opt_def split: option.splits json.splits)

lemma is_Event_no_throw:
  assumes "is_Event e"
  shows "\<not> throws_opt (get e ''startTime'') \<and> \<not> throws_opt (get e ''endTime'')
         \<and> \<not> conversion_throws (title_value e)"
proof -
  from assms obtain kvs where e: "e = JObj kvs" by (cases e) auto
  from assms have sc: "scalar_field (get e ''title'')" "scalar_field (get e ''summary'')"
    "scalar_field (get e ''startTime'')" "scalar_field (get e ''endTime'')"
    unfolding e by simp_all
  have "\<not> conversion_throws (title_value e)"
    using scalar_no_throw [OF sc(1)] scalar_no_throw [OF sc(2)]
    by (auto simp: title_value_def throws_opt_def truthy_opt_def split: option.splits)
  with scalar_no_throw [OF sc(3)] scalar_no_throw [OF sc(4)] show ?thesis by simp
qed

lemma is_Event_step:
  assumes ev: "is_Event e"
  shows "select_loop rt room now (e # rest) nxt =
     (if is_current rt room now e then Inr (Some e, nxt)
      else select_loop rt room now rest (keep_earliest rt room now nxt e))"
proof -
  from ev have nn: "e \<noteq> JNull" by auto
  from is_Event_no_throw [OF ev]
  have nt: "\<not> throws_opt (get e ''startTime'')" "\<not> throws_opt (get e ''endTime'')"
    by simp_all
  show ?thesis
  proof (cases "truthy_opt (get e ''startTime'') \<and> truthy_opt (get e ''endTime'')
                \<and> truthy_opt (get e ''location'')")
    case False
    then have "\<not> eligible rt room now e"
      by (auto simp: eligible_def present_def room_in_location_def truthy_opt_def
          split: option.splits json.splits)
    with False nn show ?thesis
      using not_eligible_step [of rt room now e nxt] by auto
  next
    case True
    then obtain ls where loc: "get e ''location'' = Some (JArr ls)"
      using is_Event_location [OF ev] by blast
    have inc: "js_includes (the (get e ''location'')) room = Inr (room_in_location room e)"
      by (simp add: loc room_in_location_def)
    show ?thesis
    proof (cases "room_in_location room e \<and> sameDate rt now (startMs rt e)")
      case False
      then have "\<not> eligible rt room now e" by (auto simp: eligible_def)
      with False True nn inc nt show ?thesis
        using not_eligible_step [of rt room now e nxt]
        by (auto simp: startMs_def Let_def split: bool.splits)
    next
      case el: True
      with True have elig: "eligible rt room now e"
        by (simp add: eligible_def present_def)
      show ?thesis
        using True nn inc el elig nt
        by (simp add: Let_def is_current_def is_upcoming_def keep_earliest_def
            startMs_def endMs_def)
    qed
  qed
qed

lemma select_loop_Events:
  "list_all is_Event xs \<Longrightarrow>
   select_loop rt room now xs nxt =
     Inr (find (is_current rt room now) xs,
          foldl (keep_earliest rt room now) nxt (takeWhile (\<lambda>x. \<not> is_current rt room now x) xs))"
proof (induction xs arbitrary: nxt)
  case Nil
  then show ?case by simp
next
  case (Cons e xs)
  then have "is_Event e" and "list_all is_Event xs" by simp_all
  then show ?case
    using Cons.IH by (simp del: select_loop.simps add: is_Event_step)
qed

lemma upcoming_start:
  "is_upcoming rt room now e \<Longrightarrow> \<exists>t. startMs rt e = Some t \<and> now < t"
  by (auto simp: is_upcoming_def ms_lt_def split: option.splits)

lemma earliest_inv:
  "(foldl (keep_earliest rt room now) None ys = None \<longrightarrow>
      (\<forall>c\<in>set ys. \<not> is_upcoming rt room now c)) \<and>
   (\<forall>n. foldl (keep_earliest rt room now) None ys = Some n \<longrightarrow>
      is_upcoming rt room now n \<and>
      (\<exists>pre post. ys = pre @ n # post
         \<and> (\<forall>c\<in>set pre. is_upcoming rt room now c \<longrightarrow> ms_lt (startMs rt n) (startMs rt c))
         \<and> (\<forall>c\<in>set post. is_upcoming rt room now c \<longrightarrow> ms_le (startMs rt n) (startMs rt c))))"
proof (induction ys rule: rev_induct)
  case Nil
  then show ?case by simp
next
  case (snoc y ys)
  let ?r = "foldl (keep_earliest rt room now) None ys"
  have step: "foldl (keep_earliest rt room now) None (ys @ [y]) = keep_earliest rt room now ?r y"
    by simp
  show ?case
  proof (cases ?r)
    case None
    with snoc.IH have none: "\<forall>c\<in>set ys. \<not> is_upcoming rt room now c" by simp
    show ?thesis
    proof (cases "is_upcoming rt room now y")
      case True
      then have r': "keep_earliest rt room now ?r y = Some y"
        by (simp add: keep_earliest_def None)
      have "\<exists>pre post. ys @ [y] = pre @ y # post
         \<and> (\<forall>c\<in>set pre. is_upcoming rt room now c \<longrightarrow> ms_lt (startMs rt y) (startMs rt c))
         \<and> (\<forall>c\<in>set post. is_upcoming rt room now c \<longrightarrow> ms_le (startMs rt y) (startMs rt c))"
        by (rule exI [of _ ys], rule exI [of _ "[]"]) (use none in simp)
      with True show ?thesis unfolding step r' by simp
    next
      case False
      then have r': "keep_earliest rt room now ?r y = None"
        by (simp add: keep_earliest_def None)
      from none False show ?thesis unfolding step r' by simp
    qed
  next
    case (Some n)
    with snoc.IH obtain pre post where up: "is_upcoming rt room now n"
      and split: "ys = pre @ n # post"
      and before: "\<forall>c\<in>set pre. is_upcoming rt room now c \<longrightarrow> ms_lt (startMs rt n) (startMs rt c)"
      and after: "\<forall>c\<in>set post. is_upcoming rt room now c \<longrightarrow> ms_le (startMs rt n) (startMs rt c)"
      by blast
    from upcoming_start [OF up] obtain tn where tn: "startMs rt n = Some tn" by blast
    show ?thesis
    proof (cases "is_upcoming rt room now y \<and> ms_lt (startMs rt y) (startMs rt n)")
      case True
      then have r': "keep_earliest rt room now ?r y = Some y"
        by (simp add: keep_earliest_def Some)
      from True upcoming_start obtain ty where ty: "startMs rt y = Some ty" and lt: "ty < tn"
        using tn by (fastforce simp: ms_lt_def)
      have all: "\<forall>c\<in>set ys. is_upcoming rt room now c \<longrightarrow> ms_lt (startMs rt y) (startMs rt c)"
      proof (intro ballI impI)
        fix c assume c: "c \<in> set ys" and uc: "is_upcoming rt room now c"
        from upcoming_start [OF uc] obtain tc where tc: "startMs rt c = Some tc" by blast
        from c split have "c \<in> set pre \<or> c = n \<or> c \<in> set post" by auto
        then have "tn \<le> tc"
          using before after uc tc tn by (auto simp: ms_lt_def ms_le_def)
        with lt show "ms_lt (startMs rt y) (startMs rt c)"
          by (simp add: ty tc ms_lt_def)
      qed
      have "\<exists>pre post. ys @ [y] = pre @ y # post
         \<and> (\<forall>c\<in>set pre. is_upcoming rt room now c \<longrightarrow> ms_lt (startMs rt y) (startMs rt c))
         \<and> (\<forall>c\<in>set post. is_upcoming rt room now c \<longrightarrow> ms_le (startMs rt y) (startMs rt c))"
        by (rule exI [of _ ys], rule exI [of _ "[]"]) (use all in simp)
      with True show ?thesis unfolding step r' by simp
    next
      case False
      then have r': "keep_earliest rt room now ?r y = Some n"
        by (auto simp: keep_earliest_def Some)
      have last: "is_upcoming rt room now y \<longrightarrow> ms_le (startMs rt n) (startMs rt y)"
      proof
        assume uy: "is_upcoming rt room now y"
        from upcoming_start [OF uy] obtain ty where ty: "startMs rt y = Some ty" by blast
        from False uy have "\<not> ms_lt (startMs rt y) (startMs rt n)" by simp
        then show "ms_le (startMs rt n) (startMs rt y)"
          by (simp add: ty tn ms_lt_def ms_le_def)
      qed
      have "ys @ [y] = pre @ n # (post @ [y])" using split by simp
      moreover have "\<forall>c\<in>set (post @ [y]). is_upcoming rt room now c \<longrightarrow> ms_le (startMs rt n) (startMs rt c)"
        using after last by auto
      ultimately have "\<exists>pre post. ys @ [y] = pre @ n # post
         \<and> (\<forall>c\<in>set pre. is_upcoming rt room now c \<longrightarrow> ms_lt (startMs rt n) (startMs rt c))
         \<and> (\<forall>c\<in>set post. is_upcoming rt room now c \<longrightarrow> ms_le (startMs rt n) (startMs rt c))"
        using before by blast
      with up show ?thesis unfolding step r' by simp
    qed
  qed
qed

section \<open>The whole loop on a store of Events\<close>

lemma find_first_split:
  "\<exists>x\<in>set xs. P x \<Longrightarrow>
   \<exists>c post. find P xs = Some c \<and> P c \<and> xs = takeWhile (\<lambda>x. \<not> P x) xs @ c # post"
  by (induction xs) auto

lemma select_loop_no_current:
  assumes "list_all is_Event xs" and "\<forall>x\<in>set xs. \<not> is_current rt room now x"
  shows "select_loop rt room now xs nxt = Inr (None, foldl (keep_earliest rt room now) nxt xs)"
proof -
  have tw: "takeWhile (\<lambda>x. \<not> is_current rt room now x) xs = xs"
    using assms(2) by simp
  have fn: "find (is_current rt room now) xs = None"
    using assms(2) by (simp add: find_None_iff)
  show ?thesis
    using select_loop_Events [OF assms(1), of rt room now nxt] unfolding tw fn .
qed

lemma takeWhile_not: "\<forall>x\<in>set (takeWhile (\<lambda>x. \<not> P x) xs). \<not> P x"
  by (auto dest: set_takeWhileD)

lemma earliest_min:
  assumes "foldl (keep_earliest rt room now) None ys = Some n"
  shows "n \<in> set ys \<and> is_upcoming rt room now n
         \<and> (\<forall>x\<in>set ys. is_upcoming rt room now x \<longrightarrow> ms_le (startMs rt n) (startMs rt x))"
proof -
  from earliest_inv [of rt room now ys] assms obtain pre post where
    up: "is_upcoming rt room now n" and sp: "ys = pre @ n # post"
    and before: "\<forall>c\<in>set pre. is_upcoming rt room now c \<longrightarrow> ms_lt (startMs rt n) (startMs rt c)"
    and after: "\<forall>c\<in>set post. is_upcoming rt room now c \<longrightarrow> ms_le (startMs rt n) (startMs rt c)"
    by blast
  from upcoming_start [OF up] obtain tn where tn: "startMs rt n = Some tn" by blast
  have "ms_le (startMs rt n) (startMs rt x)" if x: "x \<in> set ys" and ux: "is_upcoming rt room now x" for x
  proof -
    from upcoming_start [OF ux] obtain tx where tx: "startMs rt x = Some tx" by blast
    from x sp have "x \<in> set pre \<or> x = n \<or> x \<in> set post" by auto
    then show ?thesis
      using before after ux tn tx by (auto simp: ms_lt_def ms_le_def)
  qed
  with up sp show ?thesis by auto
qed

lemma not_matching_not_eligible:
  "\<not> matches_today rt room now e \<Longrightarrow> \<not> eligible rt room now e"
  by (auto simp: matches_today_def eligible_def)

lemma foldl_keep_none:
  "\<forall>e\<in>set xs. \<not> is_upcoming rt room now e \<Longrightarrow> foldl (keep_earliest rt room now) nxt xs = nxt"
  by (induction xs arbitrary: nxt) (simp_all add: keep_earliest_def)

section \<open>The current event\<close>

text \<open>
  C1. On a store of Events, if some event has both times present, has the requested
  room in its location list, starts on the calendar date of the reference instant and
  has start \<le> now \<le> end, bounds included, then the loop returns a current event, and
  it is the first event of the store, in iteration order, with these properties: no
  event before it has them.
\<close>

theorem current_is_first_match:
  assumes "list_all is_Event events" and "e \<in> set events" and "is_current rt room timeNow e"
  shows "\<exists>c nxt pre post.
           select_loop rt room timeNow events None = Inr (Some c, nxt)
           \<and> is_current rt room timeNow c
           \<and> events = pre @ c # post
           \<and> (\<forall>x\<in>set pre. \<not> is_current rt room timeNow x)"
proof -
  let ?P = "is_current rt room timeNow"
  from assms(2,3) have "\<exists>x\<in>set events. ?P x" by blast
  from find_first_split [OF this] obtain c post where
    f: "find ?P events = Some c" and c: "?P c"
    and sp: "events = takeWhile (\<lambda>x. \<not> ?P x) events @ c # post" by blast
  have "select_loop rt room timeNow events None =
          Inr (Some c, foldl (keep_earliest rt room timeNow) None (takeWhile (\<lambda>x. \<not> ?P x) events))"
    using select_loop_Events [OF assms(1), of rt room timeNow None] f by simp
  with c sp takeWhile_not [of ?P events] show ?thesis by blast
qed

theorem current_is_first_match_witness:
  "list_all is_Event [event_1100, event_0900, event_0900]
   \<and> event_0900 \<in> set [event_1100, event_0900, event_0900]
   \<and> is_current utc_runtime ''2.05'' at_0930 event_0900
   \<and> (\<exists>c nxt pre post.
         select_loop utc_runtime ''2.05'' at_0930 [event_1100, event_0900, event_0900] None
           = Inr (Some c, nxt)
         \<and> is_current utc_runtime ''2.05'' at_0930 c
         \<and> [event_1100, event_0900, event_0900] = pre @ c # post
         \<and> (\<forall>x\<in>set pre. \<not> is_current utc_runtime ''2.05'' at_0930 x))"
proof -
  have h1: "list_all is_Event [event_1100, event_0900, event_0900]" by code_simp
  have h2: "event_0900 \<in> set [event_1100, event_0900, event_0900]" by simp
  have h3: "is_current utc_runtime ''2.05'' at_0930 event_0900" by code_simp
  show ?thesis
    using h1 h2 h3 current_is_first_match [OF h1 h2 h3] by blast
qed

section \<open>The next event\<close>

text \<open>
  C3. On a store of Events, when no event is current for the room and at least one
  eligible event of today starts after now, the loop returns no current event and
  returns as next an upcoming event with the minimal start: it starts strictly before
  every upcoming event that precedes it in iteration order and no later than every
  upcoming event that follows it, so among equal starts the first encountered wins.
\<close>

theorem next_is_earliest_first:
  assumes "list_all is_Event events"
    and "\<forall>e\<in>set events. \<not> is_current rt room timeNow e"
    and "\<exists>e\<in>set events. is_upcoming rt room timeNow e"
  shows "\<exists>n pre post.
           select_loop rt room timeNow events None = Inr (None, Some n)
           \<and> is_upcoming rt room timeNow n
           \<and> events = pre @ n # post
           \<and> (\<forall>c\<in>set pre. is_upcoming rt room timeNow c \<longrightarrow> ms_lt (startMs rt n) (startMs rt c))
           \<and> (\<forall>c\<in>set post. is_upcoming rt room timeNow c \<longrightarrow> ms_le (startMs rt n) (startMs rt c))"
proof -
  let ?P = "is_current rt room timeNow"
  let ?r = "foldl (keep_earliest rt room timeNow) None events"
  have sel: "select_loop rt room timeNow events None = Inr (None, ?r)"
    by (rule select_loop_no_current [OF assms(1,2)])
  from earliest_inv [of rt room timeNow events] assms(3) have "?r \<noteq> None" by blast
  then obtain n where n: "?r = Some n" by blast
  with earliest_inv [of rt room timeNow events] sel show ?thesis by simp
qed

theorem next_is_earliest_first_witness:
  "list_all is_Event [event_0900, event_1100, event_1100_bis]
   \<and> \<not> is_current utc_runtime ''2.05'' at_1030 event_0900
   \<and> \<not> is_current utc_runtime ''2.05'' at_1030 event_1100
   \<and> \<not> is_current utc_runtime ''2.05'' at_1030 event_1100_bis
   \<and> (\<exists>e\<in>set [event_0900, event_1100, event_1100_bis]. is_upcoming utc_runtime ''2.05'' at_1030 e)
   \<and> select_loop utc_runtime ''2.05'' at_1030 [event_0900, event_1100, event_1100_bis] None
        = Inr (None, Some event_1100)
   \<and> (\<exists>n pre post.
         select_loop utc_runtime ''2.05'' at_1030 [event_0900, event_1100, event_1100_bis] None
           = Inr (None, Some n)
         \<and> is_upcoming utc_runtime ''2.05'' at_1030 n
         \<and> [event_0900, event_1100, event_1100_bis] = pre @ n # post
         \<and> (\<forall>c\<in>set pre. is_upcoming utc_runtime ''2.05'' at_1030 c
               \<longrightarrow> ms_lt (startMs utc_runtime n) (startMs utc_runtime c))
         \<and> (\<forall>c\<in>set post. is_upcoming utc_runtime ''2.05'' at_1030 c
               \<longrightarrow> ms_le (startMs utc_runtime n) (startMs utc_runtime c)))"
proof -
  have h1: "list_all is_Event [event_0900, event_1100, event_1100_bis]" by code_simp
  have h2: "\<forall>e\<in>set [event_0900, event_1100, event_1100_bis]. \<not> is_current utc_runtime ''2.05'' at_1030 e"
    by code_simp
  have h3: "\<exists>e\<in>set [event_0900, event_1100, event_1100_bis]. is_upcoming utc_runtime ''2.05'' at_1030 e"
    by code_simp
  have h4: "select_loop utc_runtime ''2.05'' at_1030 [event_0900, event_1100, event_1100_bis] None
        = Inr (None, Some event_1100)" by code_simp
  from h2 have g: "\<not> is_current utc_runtime ''2.05'' at_1030 event_0900
      \<and> \<not> is_current utc_runtime ''2.05'' at_1030 event_1100
      \<and> \<not> is_current utc_runtime ''2.05'' at_1030 event_1100_bis" by simp
  show ?thesis
    using h1 g h3 h4 next_is_earliest_first [OF h1 h2 h3] by blast
qed

section \<open>The next event beside a current event\<close>

text \<open>
  C2. The claim is that the pair is exclusive: whenever a current event is found, the
  next event returned is \<^verbatim>\<open>null\<close>. The loop does not meet it. The \<^verbatim>\<open>break\<close> of line 278
  leaves \<open>nextEvent\<close> as the scan had it so far and line 314 sends it, so what is
  returned beside the current event depends on the order of the store: for the same
  two events at 09:30, the 11:00 event is returned as next when it is stored before the
  current 09:00 event, and \<^verbatim>\<open>null\<close> when it is stored after it. Scenario A, with the
  09:00 event alone, gives \<^verbatim>\<open>null\<close>. The message is \<^verbatim>\<open>null\<close> in the response that carries
  a next event, as the message and the image treat the pair as exclusive.
\<close>

theorem next_beside_current_order_dependent:
  "select_loop utc_runtime ''2.05'' at_0930 [event_1100, event_0900] None
     = Inr (Some event_0900, Some event_1100)
   \<and> select_loop utc_runtime ''2.05'' at_0930 [event_0900, event_1100] None
     = Inr (Some event_0900, None)
   \<and> select_loop utc_runtime ''2.05'' at_0930 [event_0900] None
     = Inr (Some event_0900, None)
   \<and> respond utc_runtime False ''2.05'' at_0930 (JArr [event_1100, event_0900])
     = Ok200 \<lparr>reply_room = ''2.05'', reply_currentTime = ''2025-11-07T09:30:00.000Z'',
              reply_event = Some event_0900, reply_nextEvent = Some event_1100,
              reply_nextEventMessage = None, reply_imageBase64 = ''iVBORw0KGgo=''\<rparr>"
  by code_simp

section \<open>No event for the room today\<close>

text \<open>
  C4. On a store of Events, if no event has the requested room in its location list
  and starts on the calendar date of the reference instant, the loop returns
  \<^verbatim>\<open>null\<close> for the current and for the next event, and the message is exactly
  \<^verbatim>\<open>No upcoming events for this room\<close>: the response carries it whenever the renderer
  returns an image (and, under \<^verbatim>\<open>SKIP_PARSE\<close>, the test image is written).
\<close>

theorem no_match_no_events:
  assumes "list_all is_Event events"
    and "\<forall>e\<in>set events. \<not> matches_today rt room timeNow e"
  shows "select_loop rt room timeNow events None = Inr (None, None)
         \<and> nextEventMessage rt None None = Inr (Some ''No upcoming events for this room'')
         \<and> respond rt skipParse room timeNow (JArr events) =
             (case generateEventImage rt None room None of
                None \<Rightarrow> Error500 ''Internal server error''
              | Some imageB64 \<Rightarrow>
                  if skipParse \<and> \<not> writeFileSync rt imageB64
                    then Error500 ''Internal server error''
                  else Ok200 \<lparr>reply_room = room,
                              reply_currentTime = toISOString rt timeNow,
                              reply_event = None,
                              reply_nextEvent = None,
                              reply_nextEventMessage = Some ''No upcoming events for this room'',
                              reply_imageBase64 = imageB64\<rparr>)"
proof -
  from assms(2) have ne: "\<forall>e\<in>set events. \<not> eligible rt room timeNow e"
    using not_matching_not_eligible by blast
  then have nc: "\<forall>e\<in>set events. \<not> is_current rt room timeNow e"
    and nu: "\<forall>e\<in>set events. \<not> is_upcoming rt room timeNow e"
    by (simp_all add: is_current_def is_upcoming_def)
  have sel: "select_loop rt room timeNow events None = Inr (None, None)"
    using select_loop_no_current [OF assms(1) nc, of None] foldl_keep_none [OF nu, of None]
    by simp
  have msg: "nextEventMessage rt None None = Inr (Some ''No upcoming events for this room'')"
    by (simp add: nextEventMessage_def)
  have "respond rt skipParse room timeNow (JArr events) =
             (case generateEventImage rt None room None of
                None \<Rightarrow> Error500 ''Internal server error''
              | Some imageB64 \<Rightarrow>
                  if skipParse \<and> \<not> writeFileSync rt imageB64
                    then Error500 ''Internal server error''
                  else Ok200 \<lparr>reply_room = room,
                              reply_currentTime = toISOString rt timeNow,
                              reply_event = None,
                              reply_nextEvent = None,
                              reply_nextEventMessage = Some ''No upcoming events for this room'',
                              reply_imageBase64 = imageB64\<rparr>)"
    unfolding respond_def by (simp add: sel msg split: option.splits)
  with sel msg show ?thesis by simp
qed

theorem no_match_no_events_witness:
  "list_all is_Event [event_tomorrow, event_untimed]
   \<and> \<not> matches_today utc_runtime ''2.05'' at_0930 event_tomorrow
   \<and> \<not> matches_today utc_runtime ''2.05'' at_0930 event_untimed
   \<and> select_loop utc_runtime ''2.05'' at_0930 [event_tomorrow, event_untimed] None = Inr (None, None)
   \<and> respond utc_runtime True ''2.05'' at_0930 (JArr [event_tomorrow, event_untimed]) =
       Ok200 \<lparr>reply_room = ''2.05'',
              reply_currentTime = ''2025-11-07T09:30:00.000Z'',
              reply_event = None,
              reply_nextEvent = None,
              reply_nextEventMessage = Some ''No upcoming events for this room'',
              reply_imageBase64 = ''iVBORw0KGgo=''\<rparr>"
proof -
  have h1: "list_all is_Event [event_tomorrow, event_untimed]" by code_simp
  have h2: "\<forall>e\<in>set [event_tomorrow, event_untimed]. \<not> matches_today utc_runtime ''2.05'' at_0930 e"
    by code_simp
  from h2 have g: "\<not> matches_today utc_runtime ''2.05'' at_0930 event_tomorrow
      \<and> \<not> matches_today utc_runtime ''2.05'' at_0930 event_untimed" by simp
  have img: "generateEventImage utc_runtime None ''2.05'' None = Some ''iVBORw0KGgo=''"
    by (simp add: utc_runtime_def)
  have wr: "writeFileSync utc_runtime ''iVBORw0KGgo=''"
    by (simp add: utc_runtime_def)
  have iso: "toISOString utc_runtime at_0930 = ''2025-11-07T09:30:00.000Z''" by code_simp
  show ?thesis
    using h1 g no_match_no_events [OF h1 h2, of True] img wr iso by simp
qed

section \<open>Events of other days\<close>

lemma loop_step_cases:
  "(\<exists>err. select_loop rt room now (e # rest) nxt = Inl err)
   \<or> select_loop rt room now (e # rest) nxt = select_loop rt room now rest nxt
   \<or> (sameDate rt now (startMs rt e)
       \<and> (select_loop rt room now (e # rest) nxt = Inr (Some e, nxt)
          \<or> select_loop rt room now (e # rest) nxt = select_loop rt room now rest (Some e)))"
  by (cases "js_includes (the (get e ''location'')) room")
     (auto simp: Let_def startMs_def split: bool.splits)

lemma returned_on_date:
  assumes "select_loop rt room now xs nxt = Inr (cur, nxt')"
    and "\<forall>n. nxt = Some n \<longrightarrow> sameDate rt now (startMs rt n)"
  shows "(\<forall>c. cur = Some c \<longrightarrow> sameDate rt now (startMs rt c))
         \<and> (\<forall>n. nxt' = Some n \<longrightarrow> sameDate rt now (startMs rt n))"
  using assms
proof (induction xs arbitrary: nxt)
  case Nil
  then show ?case by simp
next
  case (Cons e rest)
  from loop_step_cases [of rt room now e rest nxt]
  consider (err) err where "select_loop rt room now (e # rest) nxt = Inl err"
    | (skip) "select_loop rt room now (e # rest) nxt = select_loop rt room now rest nxt"
    | (cur) "sameDate rt now (startMs rt e)" "select_loop rt room now (e # rest) nxt = Inr (Some e, nxt)"
    | (keep) "sameDate rt now (startMs rt e)"
        "select_loop rt room now (e # rest) nxt = select_loop rt room now rest (Some e)"
    by blast
  then show ?case
  proof cases
    case err
    with Cons.prems(1) show ?thesis by simp
  next
    case skip
    with Cons.prems have "select_loop rt room now rest nxt = Inr (cur, nxt')" by simp
    from Cons.IH [OF this Cons.prems(2)] show ?thesis .
  next
    case cur
    with Cons.prems show ?thesis by auto
  next
    case keep
    with Cons.prems have "select_loop rt room now rest (Some e) = Inr (cur, nxt')" by simp
    from Cons.IH [OF this] keep(1) show ?thesis by simp
  qed
qed

text \<open>
  C5. An event whose start is not on the calendar date of the reference instant (its
  year, month and day in the server's time zone differ, or its start is no valid
  date) is never returned as current or as next, whatever the store, the room and the
  instant; no response carries it as \<open>event\<close> or \<open>nextEvent\<close>.
\<close>

theorem other_day_never_returned:
  assumes "\<not> sameDate rt timeNow (startMs rt e)"
  shows "select_loop rt room timeNow events None \<noteq> Inr (Some e, nxt)
         \<and> select_loop rt room timeNow events None \<noteq> Inr (cur, Some e)
         \<and> (\<forall>r. respond rt skipParse room timeNow allEvents = Ok200 r
               \<longrightarrow> reply_event r \<noteq> Some e \<and> reply_nextEvent r \<noteq> Some e)"
proof -
  have sel: "c \<noteq> Some e \<and> n \<noteq> Some e"
    if "select_loop rt room timeNow xs None = Inr (c, n)" for xs c n
    using returned_on_date [OF that] assms by auto
  have "reply_event r \<noteq> Some e \<and> reply_nextEvent r \<noteq> Some e"
    if r: "respond rt skipParse room timeNow allEvents = Ok200 r" for r
  proof -
    from r obtain xs c n where "select_loop rt room timeNow xs None = Inr (c, n)"
      and "reply_event r = c" and "reply_nextEvent r = n"
      unfolding respond_def
      by (auto split: if_splits sum.splits option.splits prod.splits)
    with sel show ?thesis by blast
  qed
  with sel show ?thesis by blast
qed

theorem other_day_never_returned_witness:
  "\<not> sameDate utc_runtime at_0930 (startMs utc_runtime event_tomorrow)
   \<and> select_loop utc_runtime ''2.05'' at_0930 [event_tomorrow, event_1100] None
       = Inr (None, Some event_1100)
   \<and> select_loop utc_runtime ''2.05'' at_0930 [event_tomorrow, event_1100] None
       \<noteq> Inr (Some event_tomorrow, None)
   \<and> select_loop utc_runtime ''2.05'' at_0930 [event_tomorrow, event_1100] None
       \<noteq> Inr (None, Some event_tomorrow)"
proof -
  have h1: "\<not> sameDate utc_runtime at_0930 (startMs utc_runtime event_tomorrow)" by code_simp
  have h2: "select_loop utc_runtime ''2.05'' at_0930 [event_tomorrow, event_1100] None
       = Inr (None, Some event_1100)" by code_simp
  show ?thesis
    using h1 h2
      other_day_never_returned [OF h1, of "''2.05''" "[event_tomorrow, event_1100]" None None]
    by blast
qed

section \<open>Events that lack a required field\<close>

lemma lacking_not_eligible:
  assumes "lacks_required e"
  shows "\<not> eligible rt room now e"
proof
  assume el: "eligible rt room now e"
  then have "present ''startTime'' e" and "present ''endTime'' e" and "room_in_location room e"
    by (simp_all add: eligible_def)
  then show False
    using assms
    by (auto simp: lacks_required_def room_in_location_def split: option.splits json.splits list.splits)
qed

lemma lacking_step:
  assumes "is_Event e" and "lacks_required e"
  shows "select_loop rt room now (e # rest) nxt = select_loop rt room now rest nxt"
  using is_Event_step [OF assms(1), of rt room now rest nxt]
    not_eligible_step [OF lacking_not_eligible [OF assms(2)], of rt room now nxt]
  by simp

lemma lacking_skipped:
  assumes "is_Event e" and "lacks_required e"
  shows "select_loop rt room now (xs @ e # ys) nxt = select_loop rt room now (xs @ ys) nxt"
proof (induction xs arbitrary: nxt)
  case Nil
  show ?case using lacking_step [OF assms] by simp
next
  case (Cons x xs)
  show ?case by (simp add: Cons.IH Let_def split: sum.splits bool.splits)
qed

text \<open>
  C6. An Event of the store that lacks a start time, an end time or a non-empty
  location is skipped: the loop gives, from any state and whatever the other elements
  are, the result it gives on the store without that event, and so does the response.
  In particular, when the remaining elements are Events the loop completes and
  returns a result: such an event never makes the request fail.
\<close>

theorem lacking_event_skipped:
  assumes "is_Event e" and "lacks_required e"
  shows "select_loop rt room timeNow (xs @ e # ys) nxt = select_loop rt room timeNow (xs @ ys) nxt
         \<and> respond rt skipParse room timeNow (JArr (xs @ e # ys))
             = respond rt skipParse room timeNow (JArr (xs @ ys))
         \<and> (list_all is_Event (xs @ ys) \<longrightarrow>
              (\<exists>cur nxt'. select_loop rt room timeNow (xs @ e # ys) None = Inr (cur, nxt')))"
proof -
  have sk: "select_loop rt room timeNow (xs @ e # ys) n = select_loop rt room timeNow (xs @ ys) n" for n
    by (rule lacking_skipped [OF assms])
  have "respond rt skipParse room timeNow (JArr (xs @ e # ys))
          = respond rt skipParse room timeNow (JArr (xs @ ys))"
    unfolding respond_def by (simp add: sk del: select_loop.simps)
  moreover have "\<exists>cur nxt'. select_loop rt room timeNow (xs @ e # ys) None = Inr (cur, nxt')"
    if "list_all is_Event (xs @ ys)"
    using select_loop_Events [OF that, of rt room timeNow None] sk by simp
  ultimately show ?thesis using sk by blast
qed

theorem lacking_event_skipped_witness:
  "is_Event event_untimed \<and> lacks_required event_untimed
   \<and> list_all is_Event ([event_0900] @ [event_1100])
   \<and> select_loop utc_runtime ''2.05'' at_1030 ([event_0900] @ event_untimed # [event_1100]) None
       = Inr (None, Some event_1100)
   \<and> select_loop utc_runtime ''2.05'' at_1030 ([event_0900] @ [event_1100]) None
       = Inr (None, Some event_1100)
   \<and> respond utc_runtime False ''2.05'' at_1030 (JArr ([event_0900] @ event_untimed # [event_1100]))
       = respond utc_runtime False ''2.05'' at_1030 (JArr ([event_0900] @ [event_1100]))"
proof -
  have h1: "is_Event event_untimed" by code_simp
  have h2: "lacks_required event_untimed" by code_simp
  have h3: "list_all is_Event ([event_0900] @ [event_1100])" by code_simp
  have h4: "select_loop utc_runtime ''2.05'' at_1030 ([event_0900] @ [event_1100]) None
       = Inr (None, Some event_1100)" by code_simp
  show ?thesis
    using h1 h2 h3 h4
      lacking_event_skipped [OF h1 h2, of utc_runtime "''2.05''" at_1030 "[event_0900]" "[event_1100]" None False]
    by simp
qed

section \<open>Store elements that are not Events\<close>

text \<open>
  The hypothesis that the store holds Events is needed: a \<^verbatim>\<open>null\<close> element, an
  element whose location is an object, or one for the room whose start cannot be
  converted, makes the loop throw, and the request is answered with the error of the
  \<^verbatim>\<open>catch\<close>.
\<close>

lemma null_element_throws:
  "select_loop rt room now (JNull # rest) nxt = Inl TypeError"
  by simp

lemma object_location_throws:
  "select_loop rt room now
     (JObj [(''startTime'', JStr ''x''), (''endTime'', JStr ''y''), (''location'', JObj [])] # rest) nxt
   = Inl TypeError"
  by (simp add: truthy_opt_def)

lemma unconvertible_start_throws:
  "select_loop rt ''2.05'' now
     (JObj [(''startTime'', JObj [(''toString'', JNum 1)]), (''endTime'', JStr ''y''),
            (''location'', JArr [JStr ''2.05''])] # rest) nxt
   = Inl TypeError"
  by (simp add: truthy_opt_def throws_opt_def)

lemma throwing_loop_is_error_response:
  "select_loop rt room now events None = Inl err \<Longrightarrow>
   respond rt skipParse room now (JArr events) = Error500 ''Internal server error''"
  by (simp add: respond_def del: select_loop.simps)

section \<open>The response on a store of Events\<close>

lemma respond_Events:
  assumes "list_all is_Event events"
  shows "\<exists>cur nxt msg.
           select_loop rt room now events None = Inr (cur, nxt)
           \<and> nextEventMessage rt cur nxt = Inr msg
           \<and> respond rt skipParse room now (JArr events) =
               (case generateEventImage rt cur room nxt of
                  None \<Rightarrow> Error500 ''Internal server error''
                | Some imageB64 \<Rightarrow>
                    if skipParse \<and> \<not> writeFileSync rt imageB64
                      then Error500 ''Internal server error''
                    else Ok200 \<lparr>reply_room = room,
                                reply_currentTime = toISOString rt now,
                                reply_event = cur,
                                reply_nextEvent = nxt,
                                reply_nextEventMessage = msg,
                                reply_imageBase64 = imageB64\<rparr>)"
proof -
  let ?pre = "takeWhile (\<lambda>x. \<not> is_current rt room now x) events"
  let ?cur = "find (is_current rt room now) events"
  let ?nxt = "foldl (keep_earliest rt room now) None ?pre"
  have sel: "select_loop rt room now events None = Inr (?cur, ?nxt)"
    by (rule select_loop_Events [OF assms])
  have "\<exists>msg. nextEventMessage rt ?cur ?nxt = Inr msg"
  proof (cases ?nxt)
    case None
    then show ?thesis by (simp add: nextEventMessage_def)
  next
    case (Some n)
    from earliest_min [OF Some] have up: "is_upcoming rt room now n" and "n \<in> set ?pre"
      by simp_all
    then have "n \<in> set events" by (auto dest: set_takeWhileD)
    with assms have "is_Event n" by (simp add: list_all_iff)
    from is_Event_no_throw [OF this]
    have nt: "\<not> throws_opt (get n ''startTime'')" "\<not> conversion_throws (title_value n)"
      by simp_all
    from upcoming_start [OF up] obtain t where "date_of rt (get n ''startTime'') = Some t"
      by (auto simp: startMs_def)
    with nt show ?thesis by (simp add: nextEventMessage_def Some)
  qed
  then obtain msg where msg: "nextEventMessage rt ?cur ?nxt = Inr msg" by blast
  have "respond rt skipParse room now (JArr events) =
               (case generateEventImage rt ?cur room ?nxt of
                  None \<Rightarrow> Error500 ''Internal server error''
                | Some imageB64 \<Rightarrow>
                    if skipParse \<and> \<not> writeFileSync rt imageB64
                      then Error500 ''Internal server error''
                    else Ok200 \<lparr>reply_room = room,
                                reply_currentTime = toISOString rt now,
                                reply_event = ?cur,
                                reply_nextEvent = ?nxt,
                                reply_nextEventMessage = msg,
                                reply_imageBase64 = imageB64\<rparr>)"
    unfolding respond_def by (simp add: sel msg del: select_loop.simps split: option.splits)
  with sel msg show ?thesis by blast
qed

section \<open>The cache and the store file\<close>

lemma log_line_array [simp]: "\<not> log_line_throws (JArr xs)"
  by (simp add: log_line_throws_def)

lemma load_missing:
  "loadEventsCache rt None st = (Inr JNull, initial_cache)"
  by (simp add: loadEventsCache_def initial_cache_def)

lemma stale_initial: "stale initial_cache m"
  by (simp add: stale_def initial_cache_def)

lemma stale_invalidate: "stale (invalidate st) m"
  by (simp add: stale_def invalidate_def no_timestamp_def)

lemma load_stale:
  "stale st (mtime f) \<Longrightarrow>
   loadEventsCache rt (Some f) st =
     (case JSON_parse rt (rawData f) of
        None \<Rightarrow> (Inl SyntaxError, st)
      | Some v \<Rightarrow> (if log_line_throws v then Inl TypeError else Inr v,
                   \<lparr>eventsCache = v, cacheTimestamp = Some (mtime f)\<rparr>))"
  by (simp add: loadEventsCache_def Let_def)

lemma load_fresh:
  "\<not> stale st (mtime f) \<Longrightarrow> loadEventsCache rt (Some f) st = (Inr (eventsCache st), st)"
  by (simp add: loadEventsCache_def Let_def)

text \<open>
  C7. If the store file does not exist when a request arrives, \<open>loadEventsCache\<close>
  returns \<^verbatim>\<open>null\<close> and the request is answered with the status 500 and the error
  \<^verbatim>\<open>Structured events data not found\<close>; the handler returns, it does not throw. Once a
  file holding a store of Events is there, the next request is served from it
  (Scenario D): the cache holds the store, the loop returns a selection, and when the
  renderer returns an image for that selection (and, under \<^verbatim>\<open>SKIP_PARSE\<close>, the test
  image is written) the answer is the 200 that carries the requested room, the
  reference instant, the selected current and next event, their message and that
  image; the only other answer is the 500 of a renderer or a write that failed.
\<close>

theorem missing_store_then_served:
  assumes "JSON_parse rt (rawData f) = Some (JArr events)"
    and "list_all is_Event events"
  shows "loadEventsCache rt None st = (Inr JNull, initial_cache)
         \<and> post_data rt skipParse clock None st room
             = (Error500 ''Structured events data not found'', initial_cache)
         \<and> (\<exists>cur nxt msg.
               select_loop rt room' (if skipParse then 1762506000000 else clock') events None
                 = Inr (cur, nxt)
               \<and> nextEventMessage rt cur nxt = Inr msg
               \<and> post_data rt skipParse clock' (Some f)
                   (snd (post_data rt skipParse clock None st room)) room'
                 = (case generateEventImage rt cur room' nxt of
                      None \<Rightarrow> Error500 ''Internal server error''
                    | Some imageB64 \<Rightarrow>
                        if skipParse \<and> \<not> writeFileSync rt imageB64
                          then Error500 ''Internal server error''
                        else Ok200 \<lparr>reply_room = room',
                                    reply_currentTime =
                                      toISOString rt (if skipParse then 1762506000000 else clock'),
                                    reply_event = cur,
                                    reply_nextEvent = nxt,
                                    reply_nextEventMessage = msg,
                                    reply_imageBase64 = imageB64\<rparr>,
                    \<lparr>eventsCache = JArr events, cacheTimestamp = Some (mtime f)\<rparr>))"
proof -
  let ?now = "if skipParse then 1762506000000 else clock'"
  have first: "post_data rt skipParse clock None st room
             = (Error500 ''Structured events data not found'', initial_cache)"
    by (simp add: post_data_def load_missing respond_def)
  have ld: "loadEventsCache rt (Some f) initial_cache
              = (Inr (JArr events), \<lparr>eventsCache = JArr events, cacheTimestamp = Some (mtime f)\<rparr>)"
    by (simp add: load_stale [OF stale_initial] assms(1))
  have second: "post_data rt skipParse clock' (Some f) initial_cache room'
      = (respond rt skipParse room' ?now (JArr events),
         \<lparr>eventsCache = JArr events, cacheTimestamp = Some (mtime f)\<rparr>)"
    by (simp add: post_data_def ld)
  from respond_Events [OF assms(2), of rt room' ?now skipParse]
  obtain cur nxt msg where sel: "select_loop rt room' ?now events None = Inr (cur, nxt)"
    and msg: "nextEventMessage rt cur nxt = Inr msg"
    and rs: "respond rt skipParse room' ?now (JArr events) =
               (case generateEventImage rt cur room' nxt of
                  None \<Rightarrow> Error500 ''Internal server error''
                | Some imageB64 \<Rightarrow>
                    if skipParse \<and> \<not> writeFileSync rt imageB64
                      then Error500 ''Internal server error''
                    else Ok200 \<lparr>reply_room = room',
                                reply_currentTime = toISOString rt ?now,
                                reply_event = cur,
                                reply_nextEvent = nxt,
                                reply_nextEventMessage = msg,
                                reply_imageBase64 = imageB64\<rparr>)"
    by blast
  have third: "post_data rt skipParse clock' (Some f)
                   (snd (post_data rt skipParse clock None st room)) room'
      = (case generateEventImage rt cur room' nxt of
                  None \<Rightarrow> Error500 ''Internal server error''
                | Some imageB64 \<Rightarrow>
                    if skipParse \<and> \<not> writeFileSync rt imageB64
                      then Error500 ''Internal server error''
                    else Ok200 \<lparr>reply_room = room',
                                reply_currentTime = toISOString rt ?now,
                                reply_event = cur,
                                reply_nextEvent = nxt,
                                reply_nextEventMessage = msg,
                                reply_imageBase64 = imageB64\<rparr>,
         \<lparr>eventsCache = JArr events, cacheTimestamp = Some (mtime f)\<rparr>)"
    unfolding first using second rs by simp
  from sel msg third have "\<exists>cur nxt msg.
               select_loop rt room' ?now events None = Inr (cur, nxt)
               \<and> nextEventMessage rt cur nxt = Inr msg
               \<and> post_data rt skipParse clock' (Some f)
                   (snd (post_data rt skipParse clock None st room)) room'
                 = (case generateEventImage rt cur room' nxt of
                      None \<Rightarrow> Error500 ''Internal server error''
                    | Some imageB64 \<Rightarrow>
                        if skipParse \<and> \<not> writeFileSync rt imageB64
                          then Error500 ''Internal server error''
                        else Ok200 \<lparr>reply_room = room',
                                    reply_currentTime = toISOString rt ?now,
                                    reply_event = cur,
                                    reply_nextEvent = nxt,
                                    reply_nextEventMessage = msg,
                                    reply_imageBase64 = imageB64\<rparr>,
                    \<lparr>eventsCache = JArr events, cacheTimestamp = Some (mtime f)\<rparr>)"
    by blast
  with first load_missing [of rt st] show ?thesis by blast
qed

theorem missing_store_then_served_witness:
  "JSON_parse utc_runtime (rawData \<lparr>mtime = 5, rawData = json_text (JArr [event_0900])\<rparr>)
     = Some (JArr [event_0900])
   \<and> list_all is_Event [event_0900]
   \<and> post_data utc_runtime False at_0930 None
        \<lparr>eventsCache = JArr [event_1100], cacheTimestamp = Some 9\<rparr> ''2.05''
       = (Error500 ''Structured events data not found'', initial_cache)
   \<and> post_data utc_runtime False at_0930
        (Some \<lparr>mtime = 5, rawData = json_text (JArr [event_0900])\<rparr>)
        (snd (post_data utc_runtime False at_0930 None
                \<lparr>eventsCache = JArr [event_1100], cacheTimestamp = Some 9\<rparr> ''2.05''))
        ''2.05''
       = (Ok200 \<lparr>reply_room = ''2.05'', reply_currentTime = ''2025-11-07T09:30:00.000Z'',
                 reply_event = Some event_0900, reply_nextEvent = None,
                 reply_nextEventMessage = None, reply_imageBase64 = ''iVBORw0KGgo=''\<rparr>,
          \<lparr>eventsCache = JArr [event_0900], cacheTimestamp = Some 5\<rparr>)"
proof -
  let ?f = "\<lparr>mtime = 5, rawData = json_text (JArr [event_0900])\<rparr>"
  let ?st = "\<lparr>eventsCache = JArr [event_1100], cacheTimestamp = Some 9\<rparr>"
  have h1: "JSON_parse utc_runtime (rawData ?f) = Some (JArr [event_0900])" by code_simp
  have h2: "list_all is_Event [event_0900]" by code_simp
  have sel: "select_loop utc_runtime ''2.05'' at_0930 [event_0900] None = Inr (Some event_0900, None)"
    by code_simp
  have img: "generateEventImage utc_runtime (Some event_0900) ''2.05'' None = Some ''iVBORw0KGgo=''"
    by (simp add: utc_runtime_def)
  have iso: "toISOString utc_runtime at_0930 = ''2025-11-07T09:30:00.000Z''" by code_simp
  have m: "nextEventMessage utc_runtime (Some event_0900) None = Inr None"
    by (simp add: nextEventMessage_def)
  note served = missing_store_then_served [OF h1 h2, of ?st False at_0930 "''2.05''" "''2.05''" at_0930]
  from served have a: "post_data utc_runtime False at_0930 None ?st ''2.05''
       = (Error500 ''Structured events data not found'', initial_cache)" by blast
  from served obtain cur nxt msg where
    s1: "select_loop utc_runtime ''2.05'' (if False then 1762506000000 else at_0930) [event_0900] None
           = Inr (cur, nxt)"
    and s2: "nextEventMessage utc_runtime cur nxt = Inr msg"
    and s3: "post_data utc_runtime False at_0930 (Some ?f)
               (snd (post_data utc_runtime False at_0930 None ?st ''2.05'')) ''2.05''
             = (case generateEventImage utc_runtime cur ''2.05'' nxt of
                  None \<Rightarrow> Error500 ''Internal server error''
                | Some imageB64 \<Rightarrow>
                    if False \<and> \<not> writeFileSync utc_runtime imageB64
                      then Error500 ''Internal server error''
                    else Ok200 \<lparr>reply_room = ''2.05'',
                                reply_currentTime =
                                  toISOString utc_runtime (if False then 1762506000000 else at_0930),
                                reply_event = cur,
                                reply_nextEvent = nxt,
                                reply_nextEventMessage = msg,
                                reply_imageBase64 = imageB64\<rparr>,
                \<lparr>eventsCache = JArr [event_0900], cacheTimestamp = Some (mtime ?f)\<rparr>)"
    by blast
  from s1 sel have c: "cur = Some event_0900" "nxt = None" by simp_all
  with s2 m have mm: "msg = None" by simp
  have b: "post_data utc_runtime False at_0930 (Some ?f)
               (snd (post_data utc_runtime False at_0930 None ?st ''2.05'')) ''2.05''
       = (Ok200 \<lparr>reply_room = ''2.05'', reply_currentTime = ''2025-11-07T09:30:00.000Z'',
                 reply_event = Some event_0900, reply_nextEvent = None,
                 reply_nextEventMessage = None, reply_imageBase64 = ''iVBORw0KGgo=''\<rparr>,
          \<lparr>eventsCache = JArr [event_0900], cacheTimestamp = Some 5\<rparr>)"
    unfolding s3 c mm by (simp add: img iso)
  from h1 h2 a b show ?thesis by blast
qed

text \<open>
  C8. After \<open>invalidate\<close> has cleared the timestamp, the next \<open>loadEventsCache\<close> on an
  existing store file reads and parses the file whatever the cache held and whatever
  the file's modification time is, also when it equals the timestamp recorded before:
  its outcome is that of the parse alone.
\<close>

theorem invalidate_forces_reload:
  "loadEventsCache rt (Some f) (invalidate st) =
     (case JSON_parse rt (rawData f) of
        None \<Rightarrow> (Inl SyntaxError, invalidate st)
      | Some v \<Rightarrow> (if log_line_throws v then Inl TypeError else Inr v,
                   \<lparr>eventsCache = v, cacheTimestamp = Some (mtime f)\<rparr>))"
  by (rule load_stale [OF stale_invalidate])

theorem invalidate_forces_reload_witness:
  "loadEventsCache utc_runtime
     (Some \<lparr>mtime = 5, rawData = json_text (JArr [event_0900, event_1100])\<rparr>)
     \<lparr>eventsCache = JArr [event_0900], cacheTimestamp = Some 5\<rparr>
     = (Inr (JArr [event_0900]), \<lparr>eventsCache = JArr [event_0900], cacheTimestamp = Some 5\<rparr>)
   \<and> loadEventsCache utc_runtime
     (Some \<lparr>mtime = 5, rawData = json_text (JArr [event_0900, event_1100])\<rparr>)
     (invalidate \<lparr>eventsCache = JArr [event_0900], cacheTimestamp = Some 5\<rparr>)
     = (Inr (JArr [event_0900, event_1100]),
        \<lparr>eventsCache = JArr [event_0900, event_1100], cacheTimestamp = Some 5\<rparr>)"
proof -
  let ?f = "\<lparr>mtime = 5, rawData = json_text (JArr [event_0900, event_1100])\<rparr>"
  let ?st = "\<lparr>eventsCache = JArr [event_0900], cacheTimestamp = Some 5\<rparr>"
  have h1: "JSON_parse utc_runtime (rawData ?f) = Some (JArr [event_0900, event_1100])"
    by code_simp
  have h2: "loadEventsCache utc_runtime (Some ?f) ?st = (Inr (JArr [event_0900]), ?st)"
    by code_simp
  show ?thesis
    using h2 invalidate_forces_reload [of utc_runtime ?f ?st] h1 by simp
qed

text \<open>
  C9. \<open>loadEventsCache\<close> never assigns one of the two cache variables without the
  other: it leaves the cache as it was, sets both to \<^verbatim>\<open>null\<close>, or sets both from one
  successful parse. If the store file exists and parsing its text fails, that is,
  \<open>loadEventsCache\<close> throws the SyntaxError of \<^verbatim>\<open>JSON.parse\<close>, then neither the
  snapshot nor the timestamp changes and the request is answered with the status 500
  and the error \<^verbatim>\<open>Internal server error\<close>. The error is thrown whenever the text does
  not parse and the cache is due for a reload, and a text that does not parse never
  changes the cache.
\<close>

theorem corrupt_store_keeps_cache:
  "(snd (loadEventsCache rt disk st) = st
      \<or> snd (loadEventsCache rt disk st) = \<lparr>eventsCache = JNull, cacheTimestamp = None\<rparr>
      \<or> (\<exists>f v. disk = Some f \<and> JSON_parse rt (rawData f) = Some v
            \<and> snd (loadEventsCache rt disk st) = \<lparr>eventsCache = v, cacheTimestamp = Some (mtime f)\<rparr>))
   \<and> (fst (loadEventsCache rt (Some f) st) = Inl SyntaxError \<longrightarrow>
        JSON_parse rt (rawData f) = None
        \<and> snd (loadEventsCache rt (Some f) st) = st
        \<and> post_data rt skipParse clock (Some f) st room
            = (Error500 ''Internal server error'', st))
   \<and> (JSON_parse rt (rawData f) = None \<longrightarrow>
        snd (loadEventsCache rt (Some f) st) = st
        \<and> (stale st (mtime f) \<longrightarrow> fst (loadEventsCache rt (Some f) st) = Inl SyntaxError))"
proof -
  have whole: "snd (loadEventsCache rt disk st) = st
      \<or> snd (loadEventsCache rt disk st) = \<lparr>eventsCache = JNull, cacheTimestamp = None\<rparr>
      \<or> (\<exists>f v. disk = Some f \<and> JSON_parse rt (rawData f) = Some v
            \<and> snd (loadEventsCache rt disk st) = \<lparr>eventsCache = v, cacheTimestamp = Some (mtime f)\<rparr>)"
    by (auto simp: loadEventsCache_def Let_def split: option.splits)
  have signalled: "JSON_parse rt (rawData f) = None
        \<and> snd (loadEventsCache rt (Some f) st) = st
        \<and> post_data rt skipParse clock (Some f) st room
            = (Error500 ''Internal server error'', st)"
    if sig: "fst (loadEventsCache rt (Some f) st) = Inl SyntaxError"
  proof -
    from sig have np: "JSON_parse rt (rawData f) = None" and stl: "stale st (mtime f)"
      by (auto simp: loadEventsCache_def Let_def split: if_splits option.splits)
    then have "loadEventsCache rt (Some f) st = (Inl SyntaxError, st)"
      by (simp add: load_stale)
    with np show ?thesis by (simp add: post_data_def)
  qed
  have corrupt: "snd (loadEventsCache rt (Some f) st) = st
        \<and> (stale st (mtime f) \<longrightarrow> fst (loadEventsCache rt (Some f) st) = Inl SyntaxError)"
    if "JSON_parse rt (rawData f) = None"
    using that by (cases "stale st (mtime f)") (simp_all add: load_stale load_fresh)
  from whole signalled corrupt show ?thesis by blast
qed

theorem corrupt_store_keeps_cache_witness:
  "fst (loadEventsCache utc_runtime (Some \<lparr>mtime = 6, rawData = truncated_text\<rparr>)
          \<lparr>eventsCache = JArr [event_0900], cacheTimestamp = Some 5\<rparr>) = Inl SyntaxError
   \<and> JSON_parse utc_runtime (rawData \<lparr>mtime = 6, rawData = truncated_text\<rparr>) = None
   \<and> post_data utc_runtime False at_0930 (Some \<lparr>mtime = 6, rawData = truncated_text\<rparr>)
       \<lparr>eventsCache = JArr [event_0900], cacheTimestamp = Some 5\<rparr> ''2.05''
     = (Error500 ''Internal server error'',
        \<lparr>eventsCache = JArr [event_0900], cacheTimestamp = Some 5\<rparr>)"
proof -
  let ?f = "\<lparr>mtime = 6, rawData = truncated_text\<rparr>"
  let ?st = "\<lparr>eventsCache = JArr [event_0900], cacheTimestamp = Some 5\<rparr>"
  have h1: "fst (loadEventsCache utc_runtime (Some ?f) ?st) = Inl SyntaxError" by code_simp
  show ?thesis
    using h1 corrupt_store_keeps_cache [of utc_runtime "Some ?f" ?st ?f False at_0930 "''2.05''"]
    by blast
qed

text \<open>
  C10. If the store file is absent, \<open>loadEventsCache\<close> sets the snapshot and the
  timestamp to \<^verbatim>\<open>null\<close> and returns \<^verbatim>\<open>null\<close>, so a snapshot loaded before is
  dropped and the request is answered with an error instead of from it; the first
  \<open>loadEventsCache\<close> after the file is back reads and parses it, whatever its
  modification time.
\<close>

theorem absent_store_resets_cache:
  "loadEventsCache rt None st = (Inr JNull, \<lparr>eventsCache = JNull, cacheTimestamp = None\<rparr>)
   \<and> fst (post_data rt skipParse clock None st room) = Error500 ''Structured events data not found''
   \<and> loadEventsCache rt (Some f) (snd (loadEventsCache rt None st)) =
       (case JSON_parse rt (rawData f) of
          None \<Rightarrow> (Inl SyntaxError, \<lparr>eventsCache = JNull, cacheTimestamp = None\<rparr>)
        | Some v \<Rightarrow> (if log_line_throws v then Inl TypeError else Inr v,
                     \<lparr>eventsCache = v, cacheTimestamp = Some (mtime f)\<rparr>))"
proof -
  have a: "loadEventsCache rt None st = (Inr JNull, \<lparr>eventsCache = JNull, cacheTimestamp = None\<rparr>)"
    by (simp add: loadEventsCache_def)
  have b: "fst (post_data rt skipParse clock None st room) = Error500 ''Structured events data not found''"
    by (simp add: post_data_def a respond_def)
  have c: "stale \<lparr>eventsCache = JNull, cacheTimestamp = None\<rparr> (mtime f)"
    by (simp add: stale_def)
  show ?thesis
    using a b load_stale [OF c, of rt] by simp
qed

theorem absent_store_resets_cache_witness:
  "loadEventsCache utc_runtime None \<lparr>eventsCache = JArr [event_1100], cacheTimestamp = Some 9\<rparr>
     = (Inr JNull, \<lparr>eventsCache = JNull, cacheTimestamp = None\<rparr>)
   \<and> loadEventsCache utc_runtime (Some \<lparr>mtime = 5, rawData = json_text (JArr [event_0900])\<rparr>)
       (snd (loadEventsCache utc_runtime None
               \<lparr>eventsCache = JArr [event_1100], cacheTimestamp = Some 9\<rparr>))
     = (Inr (JArr [event_0900]), \<lparr>eventsCache = JArr [event_0900], cacheTimestamp = Some 5\<rparr>)"
proof -
  let ?f = "\<lparr>mtime = 5, rawData = json_text (JArr [event_0900])\<rparr>"
  let ?st = "\<lparr>eventsCache = JArr [event_1100], cacheTimestamp = Some 9\<rparr>"
  have h1: "JSON_parse utc_runtime (rawData ?f) = Some (JArr [event_0900])" by code_simp
  note reset = absent_store_resets_cache [of utc_runtime ?st False at_0930 "''2.05''" ?f]
  have a: "loadEventsCache utc_runtime None ?st
             = (Inr JNull, \<lparr>eventsCache = JNull, cacheTimestamp = None\<rparr>)"
    using reset by blast
  have "loadEventsCache utc_runtime (Some ?f) (snd (loadEventsCache utc_runtime None ?st)) =
       (case JSON_parse utc_runtime (rawData ?f) of
          None \<Rightarrow> (Inl SyntaxError, \<lparr>eventsCache = JNull, cacheTimestamp = None\<rparr>)
        | Some v \<Rightarrow> (if log_line_throws v then Inl TypeError else Inr v,
                     \<lparr>eventsCache = v, cacheTimestamp = Some (mtime ?f)\<rparr>))"
    using reset by blast
  then have c: "loadEventsCache utc_runtime (Some ?f) (snd (loadEventsCache utc_runtime None ?st))
     = (Inr (JArr [event_0900]), \<lparr>eventsCache = JArr [event_0900], cacheTimestamp = Some 5\<rparr>)"
    unfolding h1 by simp
  from a c show ?thesis by blast
qed

end
